theory Spec2Isabelle
  imports Main "HOL-Library.AList"
begin

section \<open>Survivor pool: pick submission and day processing\<close>

text \<open>
  A shallow embedding of the contest logic of \<^verbatim>\<open>app.js\<close> (Express) and
  \<^verbatim>\<open>serve.mjs\<close> (plain http). Both files carry the same \<^verbatim>\<open>DAY_ORDER\<close>,
  the same \<^verbatim>\<open>getRequiredPicks\<close> and the same bodies for the routes
  \<^verbatim>\<open>POST /api/picks\<close> and \<^verbatim>\<open>POST /api/admin/process-day\<close>, statement by statement;
  one model covers both.

  Modelling conventions.
  \<^item> The three JSON files are the state. A JSON object used as a dictionary (a player's
    \<^verbatim>\<open>picks\<close> and \<^verbatim>\<open>results\<close>, the games file) is an association list in insertion
    order: \<^verbatim>\<open>o[k]\<close> is \<open>map_of o k\<close>, \<^verbatim>\<open>o[k] = v\<close> is \<open>AList.update k v o\<close>
    (an existing key keeps its place, a new key goes last) and \<^verbatim>\<open>Object.values(o)\<close> is
    \<open>map snd o\<close>. A key that is not an own key but names a member of
    \<^verbatim>\<open>Object.prototype\<close> (\<open>OBJECT_PROTOTYPE\<close> below) reads the inherited member, a
    function or an object and so truthy. The submission handler, which only tests
    \<^verbatim>\<open>player.picks[day]\<close> for truth, is modelled with it. The day-processing handler
    goes on to use what it reads as an array; its model reads own keys only, which is what
    the code does for a day that names no such member, and the statements about what it
    computes and returns take such a day.
  \<^item> Day and team identifiers, statuses and results are strings; a count or an amount is an
    \<open>int\<close>; a flag is a \<open>bool\<close>; a field that may be absent is an \<open>option\<close>. The code
    computes on doubles: \<^verbatim>\<open>+\<close> is the integer sum as long as the operands and the sum
    are safe integers (\<open>safeInteger\<close> below), and a statement about an exact sum says so.
  \<^item> JavaScript truthiness is written out where the code relies on it: \<^verbatim>\<open>!playerId\<close> is
    \<open>playerId = 0\<close>, \<^verbatim>\<open>!day\<close> is \<open>day = []\<close>, an array is always truthy, a string is
    truthy when it is not empty.
  \<^item> A handler returns \<open>Inl\<close> of an error where the code sends an error response and
    returns before writing any file, and \<open>Inr\<close> of what it writes and sends otherwise.
\<close>

subsection \<open>Data\<close>

type_synonym day = string
type_synonym team = string

record player =
  id_p :: int
  name :: string
  status :: string
  buybacks :: int
  needsBuyback :: bool
  totalSpent :: int
  picks :: "(day \<times> team list) list"
  results :: "(day \<times> string) list"

record game =
  id_g :: string
  homeScore :: "int option"
  awayScore :: "int option"
  final :: bool
  winner :: "team option"

record config =
  teams :: "team list"
  buybackDays :: "day list"
  currentDay :: "day option"
  siteLocked :: bool
  lockMessage :: string
  adminPassword :: "string option"

text \<open>The error responses of the two routes, named by kind; the comment gives the HTTP
  status and the message of the source.\<close>

datatype error =
    SiteLocked \<comment> \<open>423 Site is locked for maintenance.\<close>
  | MissingFields \<comment> \<open>400 Missing required fields.\<close>
  | PlayerNotFound \<comment> \<open>404 Player not found.\<close>
  | AlreadySubmitted \<comment> \<open>400 Picks already submitted for this day.\<close>
  | DuplicatePick \<comment> \<open>400 Duplicate teams in picks.\<close>
  | TeamReused team \<comment> \<open>400 Team already used: t\<close>
  | InvalidTeam team \<comment> \<open>400 Invalid team: t\<close>
  | WrongPickCount nat \<comment> \<open>400 Exactly n pick(s) required for this day.\<close>
  | BuybackLimitReached \<comment> \<open>400 Maximum buybacks (3) reached.\<close>
  | BuybackNotAllowedToday \<comment> \<open>400 Buybacks are not available on this day.\<close>
  | Unauthorized \<comment> \<open>401 Unauthorized\<close>
  | MissingDay \<comment> \<open>400 Provide day to process.\<close>

record entry =
  id_e :: int
  name_e :: string
  status_e :: string
  result :: "string option"

subsection \<open>Shared constants and logic\<close>

definition DAY_ORDER :: "day list" where
  "DAY_ORDER =
     [''thursday_r1'', ''friday_r1'', ''saturday_r2'', ''sunday_r2'',
      ''thursday_s16'', ''friday_s16'', ''saturday_e8'', ''sunday_e8'',
      ''saturday_ff'', ''monday_champ'']"

text \<open>The string-keyed members of \<^verbatim>\<open>Object.prototype\<close> in the runtime (Node.js),
  which every object read from a JSON file inherits; and the range of integers that a
  double holds exactly, \<^verbatim>\<open>Number.MAX_SAFE_INTEGER\<close> being \<open>2 ^ 53 - 1\<close>.\<close>

definition OBJECT_PROTOTYPE :: "string list" where
  "OBJECT_PROTOTYPE =
     [''constructor'', ''__defineGetter__'', ''__defineSetter__'', ''hasOwnProperty'',
      ''__lookupGetter__'', ''__lookupSetter__'', ''isPrototypeOf'', ''propertyIsEnumerable'',
      ''toString'', ''valueOf'', ''__proto__'', ''toLocaleString'']"

definition MAX_SAFE_INTEGER :: int where
  "MAX_SAFE_INTEGER = 2 ^ 53 - 1"

definition safeInteger :: "int \<Rightarrow> bool" where
  "safeInteger n = (- MAX_SAFE_INTEGER \<le> n \<and> n \<le> MAX_SAFE_INTEGER)"

definition getRequiredPicks :: "player \<Rightarrow> day \<Rightarrow> nat" where
  "getRequiredPicks player day =
     (if \<not> needsBuyback player then
        (if day = ''thursday_r1'' \<or> day = ''friday_r1'' then 2 else 1)
      else if day = ''friday_r1'' then 4
      else 3)"

text \<open>\<^verbatim>\<open>isAdminAuthed\<close>: the request header \<^verbatim>\<open>x-admin-password\<close> (absent: \<open>None\<close>)
  strictly equals the configured password.\<close>

definition isAdminAuthed :: "config \<Rightarrow> string option \<Rightarrow> bool" where
  "isAdminAuthed config header = (header = adminPassword config)"

text \<open>\<^verbatim>\<open>Array.prototype.findIndex\<close>, with \<open>None\<close> for -1; \<^verbatim>\<open>players.find(f)\<close> is
  the element at that index, shared with the array, so that a write to it is a write to
  that position of the array.\<close>

fun findIndex :: "('a \<Rightarrow> bool) \<Rightarrow> 'a list \<Rightarrow> nat option" where
  "findIndex f [] = None"
| "findIndex f (x # xs) = (if f x then Some 0 else map_option Suc (findIndex f xs))"

definition indexOf :: "'a list \<Rightarrow> 'a \<Rightarrow> int" where
  "indexOf xs x = (case findIndex (\<lambda>y. y = x) xs of None \<Rightarrow> - 1 | Some i \<Rightarrow> int i)"

subsection \<open>POST /api/picks\<close>

text \<open>The tail of the handler: the picks are stored under the day, the day's result is
  \<^verbatim>\<open>pending\<close>, and the players array, with the player at its place, is what is
  written.\<close>

definition savePicks ::
  "player list \<Rightarrow> nat \<Rightarrow> player \<Rightarrow> day \<Rightarrow> team list \<Rightarrow> player list \<times> player"
where
  "savePicks players i player day pks =
     (let player1 = player\<lparr>picks := AList.update day pks (picks player)\<rparr>;
          player2 = player1\<lparr>results := AList.update day ''pending'' (results player1)\<rparr>
      in (players[i := player2], player2))"

text \<open>The handler. \<^verbatim>\<open>if (player.picks[day])\<close> holds when a pick list is stored
  under the day (an array is truthy, also an empty one) and when the day names a member of
  \<^verbatim>\<open>Object.prototype\<close>. The request body is \<open>playerId\<close>, \<open>day\<close>, \<open>pks\<close> (the field
  \<^verbatim>\<open>picks\<close>; an absent or non-array value is rejected like an empty array) and
  \<open>isBuyback\<close>. The result is the players array written to the players file together with
  the player of the response.\<close>

definition submitPick ::
  "config \<Rightarrow> player list \<Rightarrow> int \<Rightarrow> day \<Rightarrow> team list \<Rightarrow> bool \<Rightarrow> error + (player list \<times> player)"
where
  "submitPick config players playerId day pks isBuyback =
     (if siteLocked config then Inl SiteLocked
      else if playerId = 0 \<or> day = [] \<or> pks = [] then Inl MissingFields
      else
        (case findIndex (\<lambda>p. id_p p = playerId) players of
          None \<Rightarrow> Inl PlayerNotFound
        | Some i \<Rightarrow>
            (let player = players ! i in
             if map_of (picks player) day \<noteq> None \<or> day \<in> set OBJECT_PROTOTYPE
             then Inl AlreadySubmitted
             else if length (remdups pks) \<noteq> length pks then Inl DuplicatePick
             else
               (let usedTeams = concat (map snd (picks player));
                    reused = filter (\<lambda>t. t \<in> set usedTeams) pks
                in
                if reused \<noteq> [] then Inl (TeamReused (hd reused))
                else
                  (let invalidTeams = filter (\<lambda>t. t \<notin> set (teams config)) pks in
                   if invalidTeams \<noteq> [] then Inl (InvalidTeam (hd invalidTeams))
                   else
                     (let requiredPicks = getRequiredPicks player day in
                      if length pks \<noteq> requiredPicks then Inl (WrongPickCount requiredPicks)
                      else if isBuyback then
                        (if 3 \<le> buybacks player then Inl BuybackLimitReached
                         else if day \<notin> set (buybackDays config) then Inl BuybackNotAllowedToday
                         else
                           Inr (savePicks players i
                                  (player\<lparr>status := ''alive'',
                                          buybacks := buybacks player + 1,
                                          totalSpent := totalSpent player + 25,
                                          needsBuyback := False\<rparr>)
                                  day pks))
                      else Inr (savePicks players i player day pks)))))))"

subsection \<open>POST /api/admin/process-day\<close>

text \<open>The loop that builds \<^verbatim>\<open>dayWinners\<close>: a game adds its winner when
  \<^verbatim>\<open>final\<close> is set and \<^verbatim>\<open>winner\<close> is truthy.\<close>

fun dayWinners :: "game list \<Rightarrow> team set \<Rightarrow> team set" where
  "dayWinners [] s = s"
| "dayWinners (g # gs) s =
     dayWinners gs
       (case winner g of
          None \<Rightarrow> s
        | Some w \<Rightarrow> if final g \<and> w \<noteq> [] then insert w s else s)"

text \<open>The body of the loop over the players, for one player.\<close>

definition evalPlayer :: "config \<Rightarrow> team set \<Rightarrow> day \<Rightarrow> player \<Rightarrow> player" where
  "evalPlayer config winners day player =
     (if status player \<noteq> ''alive'' then player
      else
        (case map_of (picks player) day of
          None \<Rightarrow> player
        | Some playerPicks \<Rightarrow>
            if playerPicks = [] then player
            else
              (let allWon = list_all (\<lambda>team. team \<in> winners) playerPicks in
               if allWon then player\<lparr>results := AList.update day ''win'' (results player)\<rparr>
               else
                 (let player1 = player\<lparr>results := AList.update day ''loss'' (results player)\<rparr> in
                  if day \<in> set (buybackDays config) \<and> buybacks player1 < 3
                  then player1\<lparr>needsBuyback := True, status := ''eliminated''\<rparr>
                  else player1\<lparr>status := ''eliminated'', needsBuyback := False\<rparr>))))"

text \<open>\<^verbatim>\<open>p.results[day] || null\<close>: an absent or empty result is null.\<close>

definition orNull :: "string option \<Rightarrow> string option" where
  "orNull v = (case v of None \<Rightarrow> None | Some r \<Rightarrow> if r = [] then None else Some r)"

definition summarize :: "day \<Rightarrow> player \<Rightarrow> entry" where
  "summarize day p =
     \<lparr>id_e = id_p p, name_e = name p, status_e = status p,
      result = orNull (map_of (results p) day)\<rparr>"

text \<open>The handler: \<open>header\<close> is the request's \<^verbatim>\<open>x-admin-password\<close>. The result is the
  config written, the players written, and the response's \<^verbatim>\<open>currentDay\<close> and
  \<^verbatim>\<open>summary\<close>.\<close>

definition processDay ::
  "string option \<Rightarrow> config \<Rightarrow> player list \<Rightarrow> (day \<times> game list) list \<Rightarrow> day \<Rightarrow>
     error + (config \<times> player list \<times> day option \<times> entry list)"
where
  "processDay header config players allGames day =
     (if \<not> isAdminAuthed config header then Inl Unauthorized
      else if day = [] then Inl MissingDay
      else
        (let dayGames = (case map_of allGames day of None \<Rightarrow> [] | Some gs \<Rightarrow> gs);
             winners = dayWinners dayGames {};
             players1 = map (evalPlayer config winners day) players;
             dayIdx = indexOf DAY_ORDER day;
             config1 =
               (if 0 \<le> dayIdx \<and> dayIdx < int (length DAY_ORDER) - 1
                then config\<lparr>currentDay := Some (DAY_ORDER ! nat (dayIdx + 1))\<rparr>
                else config)
         in Inr (config1, players1, currentDay config1, map (summarize day) players1)))"

subsection \<open>The stored state and sequences of requests\<close>

record state =
  configFile :: config
  playersFile :: "player list"
  gamesFile :: "(day \<times> game list) list"

datatype request =
    PostPicks int day "team list" bool
  | PostProcessDay "string option" day

fun step :: "state \<Rightarrow> request \<Rightarrow> state" where
  "step st (PostPicks playerId day pks isBuyback) =
     (case submitPick (configFile st) (playersFile st) playerId day pks isBuyback of
        Inl e \<Rightarrow> st
      | Inr (players1, player1) \<Rightarrow> st\<lparr>playersFile := players1\<rparr>)"
| "step st (PostProcessDay header day) =
     (case processDay header (configFile st) (playersFile st) (gamesFile st) day of
        Inl e \<Rightarrow> st
      | Inr (config1, players1, resp) \<Rightarrow> st\<lparr>playersFile := players1, configFile := config1\<rparr>)"

fun run :: "state \<Rightarrow> request list \<Rightarrow> state" where
  "run st [] = st"
| "run st (r # rs) = run (step st r) rs"

subsection \<open>Example data\<close>

text \<open>A small pool: two players as \<^verbatim>\<open>POST /api/admin/player\<close> creates them, a roster,
  two buyback days, and the games of the first two days. On Thursday Duke and UNC have won
  and one game is still open; on Friday Gonzaga has won and one game is final with no
  winner recorded.\<close>

definition pat :: player where
  "pat = \<lparr>id_p = 1, name = ''Pat'', status = ''alive'', buybacks = 0, needsBuyback = False,
          totalSpent = 25, picks = [], results = []\<rparr>"

definition lee :: player where
  "lee = \<lparr>id_p = 2, name = ''Lee'', status = ''alive'', buybacks = 0, needsBuyback = False,
          totalSpent = 25, picks = [], results = []\<rparr>"

definition cfg0 :: config where
  "cfg0 = \<lparr>teams = [''Duke'', ''UNC'', ''Kansas'', ''Gonzaga'', ''Purdue'', ''Houston'',
                    ''Baylor'', ''Arizona''],
           buybackDays = [''friday_r1'', ''saturday_r2''],
           currentDay = Some ''thursday_r1'',
           siteLocked = False, lockMessage = [], adminPassword = Some ''secret''\<rparr>"

definition games0 :: "(day \<times> game list) list" where
  "games0 =
     [(''thursday_r1'',
        [\<lparr>id_g = ''g1'', homeScore = Some 70, awayScore = Some 61, final = True,
          winner = Some ''Duke''\<rparr>,
         \<lparr>id_g = ''g2'', homeScore = Some 58, awayScore = Some 66, final = True,
          winner = Some ''UNC''\<rparr>,
         \<lparr>id_g = ''g3'', homeScore = None, awayScore = None, final = False,
          winner = None\<rparr>]),
      (''friday_r1'',
        [\<lparr>id_g = ''g4'', homeScore = Some 80, awayScore = Some 71, final = True,
          winner = Some ''Gonzaga''\<rparr>,
         \<lparr>id_g = ''g5'', homeScore = Some 64, awayScore = Some 64, final = True,
          winner = None\<rparr>])]"

definition st0 :: state where
  "st0 = \<lparr>configFile = cfg0, playersFile = [pat, lee], gamesFile = games0\<rparr>"

text \<open>Both players enter their picks for Thursday and Friday.\<close>

definition entries :: "request list" where
  "entries =
     [PostPicks 1 ''thursday_r1'' [''Duke'', ''UNC''] False,
      PostPicks 1 ''friday_r1'' [''Gonzaga'', ''Purdue''] False,
      PostPicks 2 ''thursday_r1'' [''Duke'', ''Kansas''] False,
      PostPicks 2 ''friday_r1'' [''Houston'', ''Baylor''] False]"

text \<open>The players file after \<open>entries\<close>.\<close>

definition pat1 :: player where
  "pat1 = pat\<lparr>picks := [(''thursday_r1'', [''Duke'', ''UNC'']),
                        (''friday_r1'', [''Gonzaga'', ''Purdue''])],
               results := [(''thursday_r1'', ''pending''), (''friday_r1'', ''pending'')]\<rparr>"

definition lee1 :: player where
  "lee1 = lee\<lparr>picks := [(''thursday_r1'', [''Duke'', ''Kansas'']),
                        (''friday_r1'', [''Houston'', ''Baylor''])],
               results := [(''thursday_r1'', ''pending''), (''friday_r1'', ''pending'')]\<rparr>"

definition st1 :: state where
  "st1 = \<lparr>configFile = cfg0, playersFile = [pat1, lee1], gamesFile = games0\<rparr>"

text \<open>Thursday is processed: Pat's two teams have won; Lee's Kansas has not, and Thursday
  is no buyback day.\<close>

definition pat2 :: player where
  "pat2 = pat1\<lparr>results := [(''thursday_r1'', ''win''), (''friday_r1'', ''pending'')]\<rparr>"

definition lee2 :: player where
  "lee2 = lee1\<lparr>status := ''eliminated'',
                results := [(''thursday_r1'', ''loss''), (''friday_r1'', ''pending'')]\<rparr>"

definition st2 :: state where
  "st2 = \<lparr>configFile = cfg0\<lparr>currentDay := Some ''friday_r1''\<rparr>,
           playersFile = [pat2, lee2], gamesFile = games0\<rparr>"

definition thursday :: "request list" where
  "thursday = entries @ [PostProcessDay (Some ''secret'') ''thursday_r1'']"

section \<open>Properties\<close>

subsection \<open>Auxiliary facts\<close>

lemma findIndex_Some:
  "findIndex f xs = Some i \<Longrightarrow> i < length xs \<and> f (xs ! i) \<and> (\<forall>j < i. \<not> f (xs ! j))"
proof (induction xs arbitrary: i)
  case Nil
  then show ?case by simp
next
  case (Cons x xs)
  show ?case
  proof (cases "f x")
    case True
    with Cons.prems show ?thesis by simp
  next
    case False
    with Cons.prems obtain k where k: "findIndex f xs = Some k" "i = Suc k"
      by auto
    from Cons.IH [OF k(1)] False k(2) show ?thesis
      by (auto simp: less_Suc_eq_0_disj)
  qed
qed

lemma remdups_length_distinct: "(length (remdups xs) \<noteq> length xs) = (\<not> distinct xs)"
  by (metis distinct_remdups length_remdups_eq remdups_id_iff_distinct)

lemma hd_filter_in:
  "filter P xs \<noteq> [] \<Longrightarrow> hd (filter P xs) \<in> set xs \<and> P (hd (filter P xs))"
  using hd_in_set [of "filter P xs"] by simp

lemma dayWinners_iff:
  "w \<in> dayWinners gs s \<longleftrightarrow> w \<in> s \<or> (\<exists>g \<in> set gs. final g \<and> winner g = Some w \<and> w \<noteq> [])"
  by (induction gs arbitrary: s) (auto split: option.splits)

lemma findIndex_nth:
  "distinct xs \<Longrightarrow> i < length xs \<Longrightarrow> findIndex (\<lambda>y. y = xs ! i) xs = Some i"
proof (induction xs arbitrary: i)
  case Nil
  then show ?case by simp
next
  case (Cons x xs)
  show ?case
  proof (cases i)
    case 0
    then show ?thesis by simp
  next
    case (Suc k)
    with Cons.prems have "k < length xs" and "xs ! k \<noteq> x"
      by auto
    with Cons.IH [of k] Cons.prems(1) Suc show ?thesis
      by simp
  qed
qed

lemma indexOf_DAY_ORDER:
  "i < length DAY_ORDER \<Longrightarrow> indexOf DAY_ORDER (DAY_ORDER ! i) = int i"
proof -
  have "distinct DAY_ORDER"
    by (simp add: DAY_ORDER_def)
  then show "i < length DAY_ORDER \<Longrightarrow> indexOf DAY_ORDER (DAY_ORDER ! i) = int i"
    by (simp add: indexOf_def findIndex_nth)
qed

lemma evalPlayer_buybacks: "buybacks (evalPlayer config winners day p) = buybacks p"
  by (simp add: evalPlayer_def Let_def split: option.splits)

lemma evalPlayer_not_alive: "status p \<noteq> ''alive'' \<Longrightarrow> evalPlayer config winners day p = p"
  by (simp add: evalPlayer_def)

lemma evalPlayer_result:
  assumes "status p = ''alive''" and "map_of (picks p) day = Some pk" and "pk \<noteq> []"
  shows "map_of (results (evalPlayer config ws day p)) day = Some ''win'' \<or>
         map_of (results (evalPlayer config ws day p)) day = Some ''loss''"
  using assms by (simp add: evalPlayer_def Let_def update_conv')

lemma evalPlayer_skipped:
  assumes "\<not> (status p = ''alive'' \<and> (\<exists>pk. map_of (picks p) day = Some pk \<and> pk \<noteq> []))"
  shows "evalPlayer config ws day p = p"
  using assms by (auto simp: evalPlayer_def Let_def split: option.splits)

lemma processDay_ok:
  assumes "isAdminAuthed config header" "day \<noteq> []"
  shows "\<exists>config1 cur summary.
           processDay header config players allGames day =
             Inr (config1,
                  map (evalPlayer config
                         (dayWinners (case map_of allGames day of None \<Rightarrow> [] | Some gs \<Rightarrow> gs) {})
                         day) players,
                  cur, summary)"
  using assms by (simp add: processDay_def Let_def)

lemma processDay_lengths:
  assumes "processDay header config players allGames day = Inr (config1, players1, cur, summary)"
  shows "length players1 = length players" and "length summary = length players"
  using assms by (auto simp: processDay_def Let_def split: if_splits)

lemma processDay_summary_nth:
  assumes "processDay header config players allGames day = Inr (config1, players1, cur, summary)"
    and "i < length players"
  shows "summary ! i = summarize day (players1 ! i)"
    and "\<exists>ws. players1 ! i = evalPlayer config ws day (players ! i)"
  using assms by (auto simp: processDay_def Let_def split: if_splits)

lemma submitPick_checked:
  assumes "\<not> siteLocked config" and "playerId \<noteq> 0" and "day \<noteq> []" and "pks \<noteq> []"
    and "findIndex (\<lambda>p. id_p p = playerId) players = Some i"
  shows "submitPick config players playerId day pks isBuyback =
     (if map_of (picks (players ! i)) day \<noteq> None \<or> day \<in> set OBJECT_PROTOTYPE
      then Inl AlreadySubmitted
      else if \<not> distinct pks then Inl DuplicatePick
      else if \<exists>t \<in> set pks. \<exists>ds \<in> set (picks (players ! i)). t \<in> set (snd ds)
        then Inl (TeamReused (hd (filter (\<lambda>t. \<exists>ds \<in> set (picks (players ! i)). t \<in> set (snd ds)) pks)))
      else if \<not> set pks \<subseteq> set (teams config)
        then Inl (InvalidTeam (hd (filter (\<lambda>t. t \<notin> set (teams config)) pks)))
      else if length pks \<noteq> getRequiredPicks (players ! i) day
        then Inl (WrongPickCount (getRequiredPicks (players ! i) day))
      else if isBuyback then
        (if 3 \<le> buybacks (players ! i) then Inl BuybackLimitReached
         else if day \<notin> set (buybackDays config) then Inl BuybackNotAllowedToday
         else Inr (savePicks players i
                ((players ! i)\<lparr>status := ''alive'', buybacks := buybacks (players ! i) + 1,
                   totalSpent := totalSpent (players ! i) + 25, needsBuyback := False\<rparr>)
                day pks))
      else Inr (savePicks players i (players ! i) day pks))"
proof -
  have sub: "(filter (\<lambda>t. t \<notin> set (teams config)) pks \<noteq> []) = (\<not> set pks \<subseteq> set (teams config))"
    by (auto simp: filter_empty_conv)
  have used: "(\<lambda>t. t \<in> set (concat (map snd al))) = (\<lambda>t. \<exists>ds \<in> set al. t \<in> set (snd ds))"
    for al :: "(day \<times> team list) list"
    by auto
  have reu: "(filter (\<lambda>t. \<exists>ds \<in> set al. t \<in> set (snd ds)) pks \<noteq> []) =
      (\<exists>t \<in> set pks. \<exists>ds \<in> set al. t \<in> set (snd ds))"
    for al :: "(day \<times> team list) list"
    by (auto simp: filter_empty_conv)
  show ?thesis
    unfolding submitPick_def Let_def used reu sub remdups_length_distinct
    using assms by (simp split del: if_split cong: if_cong)
qed

lemma submitPick_Inr:
  assumes "submitPick config players playerId day pks isBuyback = Inr (players1, p1)"
  obtains i where "findIndex (\<lambda>p. id_p p = playerId) players = Some i"
    and "\<not> siteLocked config" and "playerId \<noteq> 0" and "day \<noteq> []" and "pks \<noteq> []"
    and "length pks = getRequiredPicks (players ! i) day"
    and "players1 = players[i := p1]"
    and "isBuyback \<Longrightarrow> buybacks (players ! i) < 3 \<and> day \<in> set (buybackDays config) \<and>
           buybacks p1 = buybacks (players ! i) + 1 \<and> status p1 = ''alive''"
    and "\<not> isBuyback \<Longrightarrow> buybacks p1 = buybacks (players ! i) \<and> status p1 = status (players ! i)"
proof -
  from assms have pre: "\<not> siteLocked config" "playerId \<noteq> 0" "day \<noteq> []" "pks \<noteq> []"
    by (auto simp: submitPick_def split: if_splits)
  from assms pre obtain i where i: "findIndex (\<lambda>p. id_p p = playerId) players = Some i"
    by (auto simp: submitPick_def split: option.splits)
  note R = submitPick_checked [OF pre i, of isBuyback]
  from assms R have
    "length pks = getRequiredPicks (players ! i) day"
    "players1 = players[i := p1]"
    "isBuyback \<Longrightarrow> buybacks (players ! i) < 3 \<and> day \<in> set (buybackDays config) \<and>
           buybacks p1 = buybacks (players ! i) + 1 \<and> status p1 = ''alive''"
    "\<not> isBuyback \<Longrightarrow> buybacks p1 = buybacks (players ! i) \<and> status p1 = status (players ! i)"
    by (auto simp: savePicks_def Let_def split: if_splits)
  with that i pre show thesis by blast
qed

lemma step_length: "length (playersFile (step st r)) = length (playersFile st)"
proof (cases r)
  case (PostPicks playerId day pks isBuyback)
  show ?thesis
  proof (cases "submitPick (configFile st) (playersFile st) playerId day pks isBuyback")
    case (Inl e)
    with PostPicks show ?thesis by simp
  next
    case (Inr x)
    obtain players1 p1 where x: "x = (players1, p1)" by (cases x)
    from Inr [unfolded x] show ?thesis
      by (rule submitPick_Inr) (simp add: PostPicks Inr x)
  qed
next
  case (PostProcessDay header day)
  then show ?thesis
    by (simp add: processDay_def Let_def)
qed

lemma step_process_nth:
  assumes "j < length (playersFile st)"
  shows "playersFile (step st (PostProcessDay header day)) ! j = playersFile st ! j \<or>
         (\<exists>ws. playersFile (step st (PostProcessDay header day)) ! j =
                 evalPlayer (configFile st) ws day (playersFile st ! j))"
  using assms by (auto simp: processDay_def Let_def)

lemma step_buybacks:
  assumes "j < length (playersFile st)"
  shows "buybacks (playersFile (step st r) ! j) = buybacks (playersFile st ! j) \<or>
         (\<exists>day pks. r = PostPicks (id_p (playersFile st ! j)) day pks True) \<and>
           buybacks (playersFile st ! j) < 3 \<and>
           buybacks (playersFile (step st r) ! j) = buybacks (playersFile st ! j) + 1"
proof (cases r)
  case (PostPicks playerId day pks isBuyback)
  show ?thesis
  proof (cases "submitPick (configFile st) (playersFile st) playerId day pks isBuyback")
    case (Inl e)
    with PostPicks show ?thesis by simp
  next
    case (Inr x)
    obtain players1 p1 where x: "x = (players1, p1)" by (cases x)
    from Inr [unfolded x] show ?thesis
    proof (rule submitPick_Inr)
      fix i
      assume i: "findIndex (\<lambda>p. id_p p = playerId) (playersFile st) = Some i"
        and upd: "players1 = (playersFile st)[i := p1]"
        and b: "isBuyback \<Longrightarrow> buybacks (playersFile st ! i) < 3 \<and> day \<in> set (buybackDays (configFile st)) \<and>
           buybacks p1 = buybacks (playersFile st ! i) + 1 \<and> status p1 = ''alive''"
        and nb: "\<not> isBuyback \<Longrightarrow> buybacks p1 = buybacks (playersFile st ! i) \<and> status p1 = status (playersFile st ! i)"
      have st': "playersFile (step st r) = (playersFile st)[i := p1]"
        by (simp add: PostPicks Inr x upd)
      from findIndex_Some [OF i] have idi: "id_p (playersFile st ! i) = playerId"
        by simp
      show ?thesis
      proof (cases "j = i")
        case True
        with assms st' b nb idi PostPicks show ?thesis
          by (cases isBuyback) auto
      next
        case False
        with st' show ?thesis by simp
      qed
    qed
  qed
next
  case (PostProcessDay header day)
  with step_process_nth [OF assms, of header day] show ?thesis
    by (auto simp: evalPlayer_buybacks)
qed

lemma run_length: "length (playersFile (run st rs)) = length (playersFile st)"
  by (induction rs arbitrary: st) (simp_all add: step_length del: step.simps)

lemma run_buybacks:
  "j < length (playersFile st) \<Longrightarrow> 0 \<le> buybacks (playersFile st ! j) \<Longrightarrow>
   buybacks (playersFile st ! j) \<le> 3 \<Longrightarrow>
   0 \<le> buybacks (playersFile (run st rs) ! j) \<and> buybacks (playersFile (run st rs) ! j) \<le> 3"
proof (induction rs arbitrary: st)
  case Nil
  then show ?case by simp
next
  case (Cons r rs)
  have "j < length (playersFile (step st r))"
    using Cons.prems(1) by (simp add: step_length del: step.simps)
  moreover from step_buybacks [OF Cons.prems(1), of r] Cons.prems(2,3)
  have "0 \<le> buybacks (playersFile (step st r) ! j) \<and> buybacks (playersFile (step st r) ! j) \<le> 3"
    by auto
  ultimately show ?case
    using Cons.IH [of "step st r"] by (simp del: step.simps)
qed

lemma run_append: "run st (rs @ rs') = run (run st rs) rs'"
  by (induction rs arbitrary: st) simp_all

lemma run_entries: "run st0 entries = st1"
  by (simp add: st0_def st1_def entries_def pat1_def lee1_def pat_def lee_def cfg0_def
      submitPick_def OBJECT_PROTOTYPE_def savePicks_def getRequiredPicks_def Let_def)

lemma step_thursday: "step st1 (PostProcessDay (Some ''secret'') ''thursday_r1'') = st2"
  by (simp add: st1_def st2_def pat1_def lee1_def pat2_def lee2_def pat_def lee_def cfg0_def games0_def
      processDay_def evalPlayer_def isAdminAuthed_def indexOf_def DAY_ORDER_def Let_def)

lemma run_thursday: "run st0 thursday = st2"
  by (simp add: thursday_def run_append run_entries step_thursday del: step.simps)

lemma step_revive:
  "playersFile (step st2 (PostPicks 2 ''saturday_r2'' [''Arizona''] True)) =
     [pat2, lee2\<lparr>status := ''alive'', buybacks := 1, totalSpent := 50,
                 picks := picks lee2 @ [(''saturday_r2'', [''Arizona''])],
                 results := results lee2 @ [(''saturday_r2'', ''pending'')]\<rparr>]"
  by (simp add: st2_def pat2_def lee2_def pat1_def lee1_def pat_def lee_def cfg0_def
      submitPick_def OBJECT_PROTOTYPE_def savePicks_def getRequiredPicks_def Let_def)

subsection \<open>The claims\<close>

text \<open>
  C1. For every alive player with a non-empty pick list recorded for the processed day,
  \<open>processDay\<close> sets that player's result for the day to \<open>win\<close> and leaves the status
  \<open>alive\<close> when every picked team is in the winners set (the winners of the day's games
  that are marked final and have a winner recorded); otherwise it sets the result to
  \<open>loss\<close> and the status to \<open>eliminated\<close>, with \<open>needsBuyback\<close> true exactly when the
  day is a configured buyback day and the player's buyback count is below 3. The request
  is one the handler processes: the admin password matches and a day is given; the day
  names no member of \<^verbatim>\<open>Object.prototype\<close>, so that the handler reads the stored games
  and picks.
\<close>

theorem processDay_result:
  assumes "isAdminAuthed config header" and "day \<noteq> []"
    and "i < length players"
    and "status (players ! i) = ''alive''"
    and "map_of (picks (players ! i)) day = Some pk" and "pk \<noteq> []"
    and "dayGames = (case map_of allGames day of None \<Rightarrow> [] | Some gs \<Rightarrow> gs)"
    and "winners = {w. w \<noteq> [] \<and> (\<exists>g \<in> set dayGames. final g \<and> winner g = Some w)}"
    and "day \<notin> set OBJECT_PROTOTYPE"
  shows "\<exists>config1 players1 cur summary.
           processDay header config players allGames day = Inr (config1, players1, cur, summary) \<and>
           length players1 = length players \<and>
           (if set pk \<subseteq> winners
            then map_of (results (players1 ! i)) day = Some ''win'' \<and>
                 status (players1 ! i) = ''alive'' \<and>
                 needsBuyback (players1 ! i) = needsBuyback (players ! i)
            else map_of (results (players1 ! i)) day = Some ''loss'' \<and>
                 status (players1 ! i) = ''eliminated'' \<and>
                 needsBuyback (players1 ! i) =
                   (day \<in> set (buybackDays config) \<and> buybacks (players ! i) < 3))"
proof -
  let ?ws = "dayWinners dayGames {}"
  have ws: "?ws = winners"
    using assms(8) by (auto simp: dayWinners_iff)
  have all: "list_all (\<lambda>team. team \<in> ?ws) pk \<longleftrightarrow> set pk \<subseteq> winners"
    unfolding ws by (auto simp: list_all_iff)
  have ev: "evalPlayer config ?ws day (players ! i) =
      (if set pk \<subseteq> winners
       then (players ! i)\<lparr>results := AList.update day ''win'' (results (players ! i))\<rparr>
       else (players ! i)\<lparr>results := AList.update day ''loss'' (results (players ! i)),
              status := ''eliminated'',
              needsBuyback := (day \<in> set (buybackDays config) \<and> buybacks (players ! i) < 3)\<rparr>)"
    using assms(4,5,6) all by (simp add: evalPlayer_def Let_def)
  from processDay_ok [OF assms(1,2), of players allGames]
  obtain config1 cur summary where
    pd: "processDay header config players allGames day =
           Inr (config1, map (evalPlayer config ?ws day) players, cur, summary)"
    using assms(7) by auto
  have nth: "map (evalPlayer config ?ws day) players ! i = evalPlayer config ?ws day (players ! i)"
    using assms(3) by simp
  show ?thesis
    using pd nth ev assms(4) by (auto simp: update_conv')
qed

theorem processDay_result_witness:
  "(\<exists>config1 players1 cur summary.
      processDay (Some ''secret'') cfg0 [pat1, lee1] games0 ''thursday_r1'' =
        Inr (config1, players1, cur, summary) \<and>
      map_of (results (players1 ! 0)) ''thursday_r1'' = Some ''win'' \<and>
      status (players1 ! 0) = ''alive'' \<and> \<not> needsBuyback (players1 ! 0)) \<and>
   (\<exists>config1 players1 cur summary.
      processDay (Some ''secret'') cfg0 [pat1, lee1] games0 ''thursday_r1'' =
        Inr (config1, players1, cur, summary) \<and>
      map_of (results (players1 ! 1)) ''thursday_r1'' = Some ''loss'' \<and>
      status (players1 ! 1) = ''eliminated'' \<and> \<not> needsBuyback (players1 ! 1)) \<and>
   (\<exists>config1 players1 cur summary.
      processDay (Some ''secret'') cfg0 [pat1, lee1] games0 ''friday_r1'' =
        Inr (config1, players1, cur, summary) \<and>
      map_of (results (players1 ! 0)) ''friday_r1'' = Some ''loss'' \<and>
      status (players1 ! 0) = ''eliminated'' \<and> needsBuyback (players1 ! 0))"
proof -
  have a: "isAdminAuthed cfg0 (Some ''secret'')"
    by (simp add: isAdminAuthed_def cfg0_def)
  note T = processDay_result [OF a _ _ _ _ _ refl refl, where players = "[pat1, lee1]"
      and allGames = games0]
  have 1: "\<exists>config1 players1 cur summary.
      processDay (Some ''secret'') cfg0 [pat1, lee1] games0 ''thursday_r1'' =
        Inr (config1, players1, cur, summary) \<and>
      map_of (results (players1 ! 0)) ''thursday_r1'' = Some ''win'' \<and>
      status (players1 ! 0) = ''alive'' \<and> \<not> needsBuyback (players1 ! 0)"
    using T [of "''thursday_r1''" 0 "[''Duke'', ''UNC'']"]
    by (auto simp: pat1_def pat_def games0_def cfg0_def OBJECT_PROTOTYPE_def)
  have 2: "\<exists>config1 players1 cur summary.
      processDay (Some ''secret'') cfg0 [pat1, lee1] games0 ''thursday_r1'' =
        Inr (config1, players1, cur, summary) \<and>
      map_of (results (players1 ! 1)) ''thursday_r1'' = Some ''loss'' \<and>
      status (players1 ! 1) = ''eliminated'' \<and> \<not> needsBuyback (players1 ! 1)"
    using T [of "''thursday_r1''" 1 "[''Duke'', ''Kansas'']"]
    by (auto simp: lee1_def lee_def games0_def cfg0_def OBJECT_PROTOTYPE_def)
  have 3: "\<exists>config1 players1 cur summary.
      processDay (Some ''secret'') cfg0 [pat1, lee1] games0 ''friday_r1'' =
        Inr (config1, players1, cur, summary) \<and>
      map_of (results (players1 ! 0)) ''friday_r1'' = Some ''loss'' \<and>
      status (players1 ! 0) = ''eliminated'' \<and> needsBuyback (players1 ! 0)"
    using T [of "''friday_r1''" 0 "[''Gonzaga'', ''Purdue'']"]
    by (auto simp: pat1_def pat_def games0_def cfg0_def OBJECT_PROTOTYPE_def)
  from 1 2 3 show ?thesis by blast
qed

text \<open>
  C2. A pick submission reports its validation failures in a fixed order, the first
  failure winning: \<open>AlreadySubmitted\<close> (a pick list is already recorded for the day), then
  \<open>DuplicatePick\<close> (the candidate list repeats a team), then \<open>TeamReused\<close> (a candidate
  team is in one of the player's recorded pick lists), then \<open>InvalidTeam\<close> (a candidate team
  is not in the roster), then \<open>WrongPickCount\<close> (the candidate count differs from the
  required count), then the buyback checks; no later check's error is returned when an
  earlier check fails. The submission is one the handler validates: the site is not
  locked, the request names a player, a day and a non-empty pick list, and the player
  exists; the day names no member of \<^verbatim>\<open>Object.prototype\<close>, so that
  \<^verbatim>\<open>player.picks[day]\<close> is the pick list recorded for the day or nothing.
\<close>

theorem validation_order:
  assumes "\<not> siteLocked config" and "playerId \<noteq> 0" and "day \<noteq> []" and "pks \<noteq> []"
    and "findIndex (\<lambda>p. id_p p = playerId) players = Some i"
    and "p = players ! i"
    and "R = submitPick config players playerId day pks isBuyback"
    and "submitted \<longleftrightarrow> map_of (picks p) day \<noteq> None"
    and "repeated \<longleftrightarrow> \<not> distinct pks"
    and "reused \<longleftrightarrow> (\<exists>t \<in> set pks. \<exists>ds \<in> set (picks p). t \<in> set (snd ds))"
    and "invalid \<longleftrightarrow> (\<exists>t \<in> set pks. t \<notin> set (teams config))"
    and "miscounted \<longleftrightarrow> length pks \<noteq> getRequiredPicks p day"
    and "day \<notin> set OBJECT_PROTOTYPE"
  shows
    "(submitted \<longrightarrow> R = Inl AlreadySubmitted) \<and>
     (\<not> submitted \<and> repeated \<longrightarrow> R = Inl DuplicatePick) \<and>
     (\<not> submitted \<and> \<not> repeated \<and> reused \<longrightarrow>
        (\<exists>t \<in> set pks. (\<exists>ds \<in> set (picks p). t \<in> set (snd ds)) \<and> R = Inl (TeamReused t))) \<and>
     (\<not> submitted \<and> \<not> repeated \<and> \<not> reused \<and> invalid \<longrightarrow>
        (\<exists>t \<in> set pks. t \<notin> set (teams config) \<and> R = Inl (InvalidTeam t))) \<and>
     (\<not> submitted \<and> \<not> repeated \<and> \<not> reused \<and> \<not> invalid \<and> miscounted \<longrightarrow>
        R = Inl (WrongPickCount (getRequiredPicks p day))) \<and>
     (\<not> submitted \<and> \<not> repeated \<and> \<not> reused \<and> \<not> invalid \<and> \<not> miscounted \<longrightarrow>
        (if isBuyback
         then R = Inl BuybackLimitReached \<or> R = Inl BuybackNotAllowedToday \<or> (\<exists>r. R = Inr r)
         else (\<exists>r. R = Inr r)))"
proof -
  note R = submitPick_checked [OF assms(1-5), of isBuyback, folded assms(6,7)]
  note nd = assms(13)
  let ?used = "\<lambda>t. \<exists>ds \<in> set (picks p). t \<in> set (snd ds)"
  let ?bad = "\<lambda>t. t \<notin> set (teams config)"
  have reu: "reused \<Longrightarrow> hd (filter ?used pks) \<in> set pks \<and> ?used (hd (filter ?used pks))"
    using hd_filter_in [of ?used pks] assms(10) by (simp add: filter_empty_conv)
  have inv: "invalid \<Longrightarrow> hd (filter ?bad pks) \<in> set pks \<and> ?bad (hd (filter ?bad pks))"
    using hd_filter_in [of ?bad pks] assms(11) by (simp add: filter_empty_conv)
  have sub: "invalid \<longleftrightarrow> \<not> set pks \<subseteq> set (teams config)"
    using assms(11) by auto
  have 1: "submitted \<longrightarrow> R = Inl AlreadySubmitted"
    using R nd assms(8) by simp
  have 2: "\<not> submitted \<and> repeated \<longrightarrow> R = Inl DuplicatePick"
    using R nd assms(8,9) by simp
  have 3: "\<not> submitted \<and> \<not> repeated \<and> reused \<longrightarrow>
        (\<exists>t \<in> set pks. (\<exists>ds \<in> set (picks p). t \<in> set (snd ds)) \<and> R = Inl (TeamReused t))"
  proof (intro impI, elim conjE)
    assume a: "\<not> submitted" "\<not> repeated" "reused"
    then have "R = Inl (TeamReused (hd (filter ?used pks)))"
      using R nd assms(8,9,10) by simp
    with reu [OF a(3)] show "\<exists>t \<in> set pks. ?used t \<and> R = Inl (TeamReused t)"
      by blast
  qed
  have 4: "\<not> submitted \<and> \<not> repeated \<and> \<not> reused \<and> invalid \<longrightarrow>
        (\<exists>t \<in> set pks. t \<notin> set (teams config) \<and> R = Inl (InvalidTeam t))"
  proof (intro impI, elim conjE)
    assume a: "\<not> submitted" "\<not> repeated" "\<not> reused" "invalid"
    then have "R = Inl (InvalidTeam (hd (filter ?bad pks)))"
      using R nd assms(8,9,10) sub by simp
    with inv [OF a(4)] show "\<exists>t \<in> set pks. t \<notin> set (teams config) \<and> R = Inl (InvalidTeam t)"
      by blast
  qed
  have 5: "\<not> submitted \<and> \<not> repeated \<and> \<not> reused \<and> \<not> invalid \<and> miscounted \<longrightarrow>
        R = Inl (WrongPickCount (getRequiredPicks p day))"
    using R nd assms(8,9,10,12) sub by simp
  have 6: "\<not> submitted \<and> \<not> repeated \<and> \<not> reused \<and> \<not> invalid \<and> \<not> miscounted \<longrightarrow>
        (if isBuyback
         then R = Inl BuybackLimitReached \<or> R = Inl BuybackNotAllowedToday \<or> (\<exists>r. R = Inr r)
         else (\<exists>r. R = Inr r))"
    using R nd assms(8,9,10,12) sub by simp
  from 1 2 3 4 5 6 show ?thesis by blast
qed

theorem validation_order_witness:
  "submitPick cfg0 [pat1, lee1] 1 ''thursday_r1'' [''Duke'', ''Duke''] False = Inl AlreadySubmitted \<and>
   submitPick cfg0 [pat1, lee1] 1 ''saturday_r2'' [''Duke'', ''Duke''] False = Inl DuplicatePick \<and>
   submitPick cfg0 [pat1, lee1] 1 ''saturday_r2'' [''Nope'', ''Duke''] False = Inl (TeamReused ''Duke'') \<and>
   submitPick cfg0 [pat1, lee1] 1 ''saturday_r2'' [''Nope'', ''Kansas''] False = Inl (InvalidTeam ''Nope'') \<and>
   submitPick cfg0 [pat1, lee1] 1 ''saturday_r2'' [''Kansas'', ''Houston''] True = Inl (WrongPickCount 1) \<and>
   submitPick cfg0 [pat1, lee1] 1 ''sunday_r2'' [''Kansas''] True = Inl BuybackNotAllowedToday \<and>
   (\<exists>r. submitPick cfg0 [pat1, lee1] 1 ''saturday_r2'' [''Kansas''] False = Inr r)"
proof -
  have l: "\<not> siteLocked cfg0"
    by (simp add: cfg0_def)
  have f: "findIndex (\<lambda>p. id_p p = 1) [pat1, lee1] = Some 0"
    by (simp add: pat1_def pat_def)
  have d: "''thursday_r1'' \<notin> set OBJECT_PROTOTYPE" "''saturday_r2'' \<notin> set OBJECT_PROTOTYPE"
    "''sunday_r2'' \<notin> set OBJECT_PROTOTYPE"
    by (simp_all add: OBJECT_PROTOTYPE_def)
  note T = validation_order [OF l _ _ _ f refl refl refl refl refl refl refl]
  have 1: "submitPick cfg0 [pat1, lee1] 1 ''thursday_r1'' [''Duke'', ''Duke''] False = Inl AlreadySubmitted"
    using T [of "''thursday_r1''" "[''Duke'', ''Duke'']" False]
    by (simp add: pat1_def pat_def d)
  have 2: "submitPick cfg0 [pat1, lee1] 1 ''saturday_r2'' [''Duke'', ''Duke''] False = Inl DuplicatePick"
    using T [of "''saturday_r2''" "[''Duke'', ''Duke'']" False]
    by (simp add: pat1_def pat_def d)
  have 3: "submitPick cfg0 [pat1, lee1] 1 ''saturday_r2'' [''Nope'', ''Duke''] False = Inl (TeamReused ''Duke'')"
    using T [of "''saturday_r2''" "[''Nope'', ''Duke'']" False]
    by (simp add: pat1_def pat_def d)
  have 4: "submitPick cfg0 [pat1, lee1] 1 ''saturday_r2'' [''Nope'', ''Kansas''] False = Inl (InvalidTeam ''Nope'')"
    using T [of "''saturday_r2''" "[''Nope'', ''Kansas'']" False]
    by (simp add: pat1_def pat_def cfg0_def d)
  have 5: "submitPick cfg0 [pat1, lee1] 1 ''saturday_r2'' [''Kansas'', ''Houston''] True = Inl (WrongPickCount 1)"
    using T [of "''saturday_r2''" "[''Kansas'', ''Houston'']" True]
    by (simp add: pat1_def pat_def cfg0_def getRequiredPicks_def d)
  have 7: "\<exists>r. submitPick cfg0 [pat1, lee1] 1 ''saturday_r2'' [''Kansas''] False = Inr r"
    using T [of "''saturday_r2''" "[''Kansas'']" False]
    by (simp add: pat1_def pat_def cfg0_def getRequiredPicks_def d)
  have 6: "submitPick cfg0 [pat1, lee1] 1 ''sunday_r2'' [''Kansas''] True = Inl BuybackNotAllowedToday"
    using T [of "''sunday_r2''" "[''Kansas'']" True]
    by (simp add: submitPick_def pat1_def pat_def cfg0_def getRequiredPicks_def d)
  from 1 2 3 4 5 6 7 show ?thesis by blast
qed

text \<open>
  C3. \<open>getRequiredPicks\<close> (the spec's \<open>requiredPickCount\<close>) returns 2 when the player's
  \<open>needsBuyback\<close> flag is false and the day is one of the first two days of the fixed
  sequence (\<open>thursday_r1\<close> or \<open>friday_r1\<close>), 1 when the flag is false and the day is any
  other day, 4 when the flag is true and the day is the second day (\<open>friday_r1\<close>), and 3
  when the flag is true and the day is any other day.
\<close>

theorem requiredPickCount_table:
  "take 2 DAY_ORDER = [''thursday_r1'', ''friday_r1''] \<and> DAY_ORDER ! 1 = ''friday_r1'' \<and>
   (\<not> needsBuyback p \<and> d \<in> set (take 2 DAY_ORDER) \<longrightarrow> getRequiredPicks p d = 2) \<and>
   (\<not> needsBuyback p \<and> d \<notin> set (take 2 DAY_ORDER) \<longrightarrow> getRequiredPicks p d = 1) \<and>
   (needsBuyback p \<and> d = DAY_ORDER ! 1 \<longrightarrow> getRequiredPicks p d = 4) \<and>
   (needsBuyback p \<and> d \<noteq> DAY_ORDER ! 1 \<longrightarrow> getRequiredPicks p d = 3)"
  by (auto simp: DAY_ORDER_def getRequiredPicks_def)

theorem requiredPickCount_table_witness:
  "getRequiredPicks pat ''thursday_r1'' = 2 \<and> getRequiredPicks pat ''friday_r1'' = 2 \<and>
   getRequiredPicks pat ''saturday_r2'' = 1 \<and> getRequiredPicks pat ''monday_champ'' = 1 \<and>
   getRequiredPicks (pat\<lparr>needsBuyback := True\<rparr>) ''friday_r1'' = 4 \<and>
   getRequiredPicks (pat\<lparr>needsBuyback := True\<rparr>) ''thursday_r1'' = 3 \<and>
   getRequiredPicks (pat\<lparr>needsBuyback := True\<rparr>) ''saturday_r2'' = 3"
  using requiredPickCount_table [of pat "''thursday_r1''"]
    requiredPickCount_table [of pat "''friday_r1''"]
    requiredPickCount_table [of pat "''saturday_r2''"]
    requiredPickCount_table [of pat "''monday_champ''"]
    requiredPickCount_table [of "pat\<lparr>needsBuyback := True\<rparr>" "''friday_r1''"]
    requiredPickCount_table [of "pat\<lparr>needsBuyback := True\<rparr>" "''thursday_r1''"]
    requiredPickCount_table [of "pat\<lparr>needsBuyback := True\<rparr>" "''saturday_r2''"]
  by (simp add: pat_def)

text \<open>
  C4. A submission marked as a buyback that has passed the earlier validation steps fails
  with \<open>BuybackLimitReached\<close> when the player's buyback count has reached 3, whether or not
  the day is a buyback day; below 3, it fails with \<open>BuybackNotAllowedToday\<close> when the day
  is not a configured buyback day; otherwise the buyback is applied: the status becomes
  \<open>alive\<close>, the buyback count grows by exactly 1, the amount spent by exactly 25, and the
  needs-buyback flag is cleared. Passing the first check includes that the day names no
  member of \<^verbatim>\<open>Object.prototype\<close>; the count and the amount are integers that the
  code's doubles hold exactly, before and after the addition.
\<close>

theorem buyback_submission:
  assumes "\<not> siteLocked config" and "playerId \<noteq> 0" and "day \<noteq> []" and "pks \<noteq> []"
    and "findIndex (\<lambda>p. id_p p = playerId) players = Some i"
    and "p = players ! i"
    and "map_of (picks p) day = None"
    and "distinct pks"
    and "\<not> (\<exists>t \<in> set pks. \<exists>ds \<in> set (picks p). t \<in> set (snd ds))"
    and "set pks \<subseteq> set (teams config)"
    and "length pks = getRequiredPicks p day"
    and "R = submitPick config players playerId day pks True"
    and "day \<notin> set OBJECT_PROTOTYPE"
    and "safeInteger (buybacks p)"
    and "safeInteger (totalSpent p)" and "safeInteger (totalSpent p + 25)"
  shows
    "(3 \<le> buybacks p \<longrightarrow> R = Inl BuybackLimitReached) \<and>
     (buybacks p < 3 \<and> day \<notin> set (buybackDays config) \<longrightarrow> R = Inl BuybackNotAllowedToday) \<and>
     (buybacks p < 3 \<and> day \<in> set (buybackDays config) \<longrightarrow>
        (\<exists>p1. R = Inr (players[i := p1], p1) \<and>
           status p1 = ''alive'' \<and>
           buybacks p1 = buybacks p + 1 \<and>
           totalSpent p1 = totalSpent p + 25 \<and>
           \<not> needsBuyback p1 \<and>
           map_of (picks p1) day = Some pks \<and>
           map_of (results p1) day = Some ''pending'' \<and>
           id_p p1 = id_p p \<and> name p1 = name p))"
proof -
  note R = submitPick_checked [OF assms(1-5), of True, folded assms(6,12)]
  have 1: "3 \<le> buybacks p \<longrightarrow> R = Inl BuybackLimitReached"
    using R assms(7-11,13) by simp
  have 2: "buybacks p < 3 \<and> day \<notin> set (buybackDays config) \<longrightarrow> R = Inl BuybackNotAllowedToday"
    using R assms(7-11,13) by simp
  have 3: "buybacks p < 3 \<and> day \<in> set (buybackDays config) \<longrightarrow>
        (\<exists>p1. R = Inr (players[i := p1], p1) \<and>
           status p1 = ''alive'' \<and>
           buybacks p1 = buybacks p + 1 \<and>
           totalSpent p1 = totalSpent p + 25 \<and>
           \<not> needsBuyback p1 \<and>
           map_of (picks p1) day = Some pks \<and>
           map_of (results p1) day = Some ''pending'' \<and>
           id_p p1 = id_p p \<and> name p1 = name p)"
    using R assms(7-11,13) by (simp add: savePicks_def Let_def update_conv')
  from 1 2 3 show ?thesis by blast
qed

theorem buyback_submission_witness:
  "submitPick cfg0 [pat1, lee1\<lparr>buybacks := 3\<rparr>] 2 ''saturday_r2'' [''Arizona''] True =
     Inl BuybackLimitReached \<and>
   submitPick cfg0 [pat1, lee1\<lparr>buybacks := 3\<rparr>] 2 ''sunday_r2'' [''Arizona''] True =
     Inl BuybackLimitReached \<and>
   submitPick cfg0 [pat1, lee1] 2 ''sunday_r2'' [''Arizona''] True = Inl BuybackNotAllowedToday \<and>
   (\<exists>p1. submitPick cfg0 [pat1, lee1] 2 ''saturday_r2'' [''Arizona''] True = Inr ([pat1, p1], p1) \<and>
      status p1 = ''alive'' \<and> buybacks p1 = 1 \<and> totalSpent p1 = 50 \<and> \<not> needsBuyback p1 \<and>
      map_of (picks p1) ''saturday_r2'' = Some [''Arizona''] \<and>
      map_of (results p1) ''saturday_r2'' = Some ''pending'')"
proof -
  have l: "\<not> siteLocked cfg0"
    by (simp add: cfg0_def)
  have f: "findIndex (\<lambda>p. id_p p = 2) [pat1, q] = Some 1" if "id_p q = 2" for q
    using that by (simp add: pat1_def pat_def)
  have f3: "findIndex (\<lambda>p. id_p p = 2) [pat1, lee1\<lparr>buybacks := 3\<rparr>] = Some 1"
    by (rule f) (simp add: lee1_def lee_def)
  have f0: "findIndex (\<lambda>p. id_p p = 2) [pat1, lee1] = Some 1"
    by (rule f) (simp add: lee1_def lee_def)
  note T3 = buyback_submission [OF l _ _ _ f3 refl _ _ _ _ _ refl]
  note T0 = buyback_submission [OF l _ _ _ f0 refl _ _ _ _ _ refl]
  have 1: "submitPick cfg0 [pat1, lee1\<lparr>buybacks := 3\<rparr>] 2 ''saturday_r2'' [''Arizona''] True =
     Inl BuybackLimitReached"
    using T3 [of "''saturday_r2''" "[''Arizona'']"]
    by (simp add: lee1_def lee_def cfg0_def getRequiredPicks_def OBJECT_PROTOTYPE_def
        safeInteger_def MAX_SAFE_INTEGER_def)
  have 2: "submitPick cfg0 [pat1, lee1\<lparr>buybacks := 3\<rparr>] 2 ''sunday_r2'' [''Arizona''] True =
     Inl BuybackLimitReached"
    using T3 [of "''sunday_r2''" "[''Arizona'']"]
    by (simp add: lee1_def lee_def cfg0_def getRequiredPicks_def OBJECT_PROTOTYPE_def
        safeInteger_def MAX_SAFE_INTEGER_def)
  have 3: "submitPick cfg0 [pat1, lee1] 2 ''sunday_r2'' [''Arizona''] True = Inl BuybackNotAllowedToday"
    using T0 [of "''sunday_r2''" "[''Arizona'']"]
    by (simp add: lee1_def lee_def cfg0_def getRequiredPicks_def OBJECT_PROTOTYPE_def
        safeInteger_def MAX_SAFE_INTEGER_def)
  have 4: "\<exists>p1. submitPick cfg0 [pat1, lee1] 2 ''saturday_r2'' [''Arizona''] True = Inr ([pat1, p1], p1) \<and>
      status p1 = ''alive'' \<and> buybacks p1 = 1 \<and> totalSpent p1 = 50 \<and> \<not> needsBuyback p1 \<and>
      map_of (picks p1) ''saturday_r2'' = Some [''Arizona''] \<and>
      map_of (results p1) ''saturday_r2'' = Some ''pending''"
    using T0 [of "''saturday_r2''" "[''Arizona'']"]
    by (auto simp: lee1_def lee_def cfg0_def getRequiredPicks_def OBJECT_PROTOTYPE_def
        safeInteger_def MAX_SAFE_INTEGER_def)
  from 1 2 3 4 show ?thesis by blast
qed

text \<open>
  C5. For every day of the fixed ten-day sequence, processing that day sets
  \<open>currentDay\<close> to the next day of the sequence, except for the last day
  (\<open>monday_champ\<close>), which leaves \<open>currentDay\<close> as it was.
\<close>

theorem processDay_advances:
  assumes "isAdminAuthed config header" and "i < length DAY_ORDER"
  shows "length DAY_ORDER = 10 \<and> last DAY_ORDER = ''monday_champ'' \<and>
    (\<exists>config1 players1 cur summary.
       processDay header config players allGames (DAY_ORDER ! i) =
         Inr (config1, players1, cur, summary) \<and>
       config1 =
         (if DAY_ORDER ! i = last DAY_ORDER then config
          else config\<lparr>currentDay := Some (DAY_ORDER ! Suc i)\<rparr>) \<and>
       cur = currentDay config1)"
proof -
  have d: "distinct DAY_ORDER" and n: "length DAY_ORDER = 10"
    and l: "last DAY_ORDER = ''monday_champ''" and e: "[] \<notin> set DAY_ORDER"
    by (simp_all add: DAY_ORDER_def)
  have ne: "DAY_ORDER ! i \<noteq> []"
    using e assms(2) nth_mem by metis
  have la: "last DAY_ORDER = DAY_ORDER ! 9"
    by (simp add: DAY_ORDER_def)
  have "DAY_ORDER ! i = DAY_ORDER ! 9 \<longleftrightarrow> i = 9"
    using d n assms(2) by (simp add: nth_eq_iff_index_eq)
  then have "DAY_ORDER ! i = last DAY_ORDER \<longleftrightarrow> \<not> int i < int (length DAY_ORDER) - 1"
    using la n assms(2) by auto
  then show ?thesis
    using assms ne n l
    by (simp add: processDay_def Let_def indexOf_DAY_ORDER Suc_nat_eq_nat_zadd1 nat_add_distrib)
qed

theorem processDay_advances_witness:
  "(\<exists>config1 players1 summary.
      processDay (Some ''secret'') cfg0 [pat1, lee1] games0 ''thursday_r1'' =
        Inr (config1, players1, Some ''friday_r1'', summary) \<and>
      currentDay config1 = Some ''friday_r1'') \<and>
   (\<exists>config1 players1 summary.
      processDay (Some ''secret'') cfg0 [pat1, lee1] games0 ''saturday_ff'' =
        Inr (config1, players1, Some ''monday_champ'', summary) \<and>
      currentDay config1 = Some ''monday_champ'') \<and>
   (\<exists>players1 summary.
      processDay (Some ''secret'') cfg0 [pat1, lee1] games0 ''monday_champ'' =
        Inr (cfg0, players1, Some ''thursday_r1'', summary))"
proof -
  have a: "isAdminAuthed cfg0 (Some ''secret'')"
    by (simp add: isAdminAuthed_def cfg0_def)
  note T = processDay_advances [OF a, where players = "[pat1, lee1]" and allGames = games0]
  have 1: "\<exists>config1 players1 summary.
      processDay (Some ''secret'') cfg0 [pat1, lee1] games0 ''thursday_r1'' =
        Inr (config1, players1, Some ''friday_r1'', summary) \<and>
      currentDay config1 = Some ''friday_r1''"
    using T [of 0] by (auto simp: DAY_ORDER_def)
  have 2: "\<exists>config1 players1 summary.
      processDay (Some ''secret'') cfg0 [pat1, lee1] games0 ''saturday_ff'' =
        Inr (config1, players1, Some ''monday_champ'', summary) \<and>
      currentDay config1 = Some ''monday_champ''"
    using T [of 8] by (auto simp: DAY_ORDER_def)
  have 3: "\<exists>players1 summary.
      processDay (Some ''secret'') cfg0 [pat1, lee1] games0 ''monday_champ'' =
        Inr (cfg0, players1, Some ''thursday_r1'', summary)"
    using T [of 9] by (auto simp: DAY_ORDER_def cfg0_def)
  from 1 2 3 show ?thesis by blast
qed

text \<open>
  C6. When the player already has a pick list recorded for the day, a pick submission for
  that day fails with \<open>AlreadySubmitted\<close> and the stored state (status, buyback count,
  amount spent, needs-buyback flag, pick lists and results of every player) is unchanged,
  also when the submission is marked as a buyback. A request the handler turns away before
  validation (site locked, or no player id, day or pick list given) fails with that
  check's error and changes nothing either.
\<close>

theorem resubmission_rejected:
  assumes "findIndex (\<lambda>p. id_p p = playerId) (playersFile st) = Some i"
    and "map_of (picks (playersFile st ! i)) day \<noteq> None"
    and "R = submitPick (configFile st) (playersFile st) playerId day pks isBuyback"
  shows "(\<not> siteLocked (configFile st) \<and> playerId \<noteq> 0 \<and> day \<noteq> [] \<and> pks \<noteq> [] \<longrightarrow>
           R = Inl AlreadySubmitted) \<and>
         (R = Inl SiteLocked \<or> R = Inl MissingFields \<or> R = Inl AlreadySubmitted) \<and>
         step st (PostPicks playerId day pks isBuyback) = st"
proof -
  have R: "R = (if siteLocked (configFile st) then Inl SiteLocked
                else if playerId = 0 \<or> day = [] \<or> pks = [] then Inl MissingFields
                else Inl AlreadySubmitted)"
    using assms by (simp add: submitPick_def)
  have "step st (PostPicks playerId day pks isBuyback) = st"
    using R assms(3) by (simp split: if_splits)
  with R show ?thesis
    by (simp split: if_splits)
qed

theorem resubmission_rejected_witness:
  "submitPick cfg0 [pat1, lee1] 1 ''thursday_r1'' [''Kansas'', ''Houston''] True = Inl AlreadySubmitted \<and>
   submitPick cfg0 [pat1, lee1] 1 ''thursday_r1'' [''Kansas'', ''Houston''] False = Inl AlreadySubmitted \<and>
   step st1 (PostPicks 1 ''thursday_r1'' [''Kansas'', ''Houston''] True) = st1"
proof -
  have f: "findIndex (\<lambda>p. id_p p = 1) (playersFile st1) = Some 0"
    by (simp add: st1_def pat1_def pat_def)
  have r: "map_of (picks (playersFile st1 ! 0)) ''thursday_r1'' \<noteq> None"
    by (simp add: st1_def pat1_def)
  note T = resubmission_rejected [OF f r refl, of "[''Kansas'', ''Houston'']"]
  have c: "configFile st1 = cfg0" "playersFile st1 = [pat1, lee1]"
    by (simp_all add: st1_def)
  show ?thesis
    using T [of True] T [of False] by (simp add: c cfg0_def del: step.simps)
qed

text \<open>
  C7. A player whose buyback count starts within 0..3 keeps it within 0..3 through every
  sequence of pick submissions (buybacks included) and day-processing requests: a single
  request either leaves the count as it is or is a buyback submission of that player that
  finds the count below 3 and adds exactly 1, and processing a day never changes it. The
  player is followed by position in the players file, which both requests preserve.
\<close>

theorem buybacks_invariant:
  assumes "j < length (playersFile st)"
    and "0 \<le> buybacks (playersFile st ! j)" and "buybacks (playersFile st ! j) \<le> 3"
  shows "j < length (playersFile (run st rs)) \<and>
     0 \<le> buybacks (playersFile (run st rs) ! j) \<and>
     buybacks (playersFile (run st rs) ! j) \<le> 3 \<and>
     (buybacks (playersFile (step st r) ! j) = buybacks (playersFile st ! j) \<or>
      (\<exists>day pks. r = PostPicks (id_p (playersFile st ! j)) day pks True) \<and>
        buybacks (playersFile st ! j) < 3 \<and>
        buybacks (playersFile (step st r) ! j) = buybacks (playersFile st ! j) + 1) \<and>
     buybacks (playersFile (step st (PostProcessDay header day)) ! j) =
       buybacks (playersFile st ! j)"
proof -
  have "buybacks (playersFile (step st (PostProcessDay header day)) ! j) =
      buybacks (playersFile st ! j)"
    using step_buybacks [OF assms(1), of "PostProcessDay header day"] by simp
  then show ?thesis
    using run_buybacks [OF assms, of rs] step_buybacks [OF assms(1), of r] assms(1)
    by (simp add: run_length del: step.simps)
qed

theorem buybacks_invariant_witness:
  "1 < length (playersFile (run st0 (thursday @ [PostPicks 2 ''saturday_r2'' [''Arizona''] True]))) \<and>
   buybacks (playersFile (run st0 (thursday @ [PostPicks 2 ''saturday_r2'' [''Arizona''] True])) ! 1) = 1 \<and>
   buybacks (playersFile st2 ! 1) = 0 \<and>
   buybacks (playersFile (step st2 (PostPicks 2 ''saturday_r2'' [''Arizona''] True)) ! 1) = 1 \<and>
   buybacks (playersFile (step st2 (PostProcessDay (Some ''secret'') ''friday_r1'')) ! 1) = 0"
proof -
  have j: "1 < length (playersFile st0)"
    and b: "0 \<le> buybacks (playersFile st0 ! 1)" "buybacks (playersFile st0 ! 1) \<le> 3"
    by (simp_all add: st0_def lee_def)
  have j2: "1 < length (playersFile st2)"
    and b2: "0 \<le> buybacks (playersFile st2 ! 1)" "buybacks (playersFile st2 ! 1) \<le> 3"
    by (simp_all add: st2_def lee2_def lee1_def lee_def)
  have r: "run st0 (thursday @ [PostPicks 2 ''saturday_r2'' [''Arizona''] True]) =
      step st2 (PostPicks 2 ''saturday_r2'' [''Arizona''] True)"
    by (simp add: run_append run_thursday del: step.simps)
  have z: "playersFile st2 = [pat2, lee2]" "buybacks lee2 = 0"
    by (simp_all add: st2_def lee2_def lee1_def lee_def)
  show ?thesis
    using buybacks_invariant [OF j b, of "thursday @ [PostPicks 2 ''saturday_r2'' [''Arizona''] True]"]
      buybacks_invariant [OF j2 b2, of "[]" "PostPicks 2 ''saturday_r2'' [''Arizona''] True"
        "Some ''secret''" "''friday_r1''"]
    by (simp add: r z step_revive del: step.simps)
qed

text \<open>
  C8, as stated, fails: the buyback branch of the submission handler reads the buyback count
  and the buyback days, never the needs-buyback flag. After Thursday is processed Lee is
  \<open>eliminated\<close> with the flag false (Thursday is no buyback day); a buyback submission for
  Saturday, a buyback day, with the single pick the unflagged count requires, makes Lee
  \<open>alive\<close>.
\<close>

theorem revival_without_flag:
  "run st0 thursday = st2 \<and>
   status (playersFile st2 ! 1) = ''eliminated'' \<and>
   \<not> needsBuyback (playersFile st2 ! 1) \<and>
   status (playersFile (step st2 (PostPicks 2 ''saturday_r2'' [''Arizona''] True)) ! 1) = ''alive''"
  by (simp add: run_thursday step_revive del: step.simps)
    (simp add: st2_def lee2_def lee1_def lee_def)

text \<open>
  C8, amended. Among pick submissions and day processing, the only request that changes a
  player's status from \<open>eliminated\<close> to \<open>alive\<close> is a buyback-marked pick submission of
  that player, and it does so only when the buyback count is below 3 and the target day is
  a configured buyback day; the needs-buyback flag is not checked, it only selects the
  required number of picks. Day processing leaves an eliminated player as it is.
\<close>

theorem revival_only_by_buyback:
  assumes "j < length (playersFile st)"
    and "status (playersFile st ! j) = ''eliminated''"
  shows "(status (playersFile (step st r) ! j) = ''alive'' \<longrightarrow>
           (\<exists>day pks. r = PostPicks (id_p (playersFile st ! j)) day pks True \<and>
              buybacks (playersFile st ! j) < 3 \<and>
              day \<in> set (buybackDays (configFile st)) \<and>
              length pks = getRequiredPicks (playersFile st ! j) day)) \<and>
         playersFile (step st (PostProcessDay header d)) ! j = playersFile st ! j"
proof -
  have pd: "playersFile (step st (PostProcessDay header d)) ! j = playersFile st ! j"
    using step_process_nth [OF assms(1), of header d] assms(2)
    by (auto simp: evalPlayer_not_alive simp del: step.simps)
  have "\<exists>day pks. r = PostPicks (id_p (playersFile st ! j)) day pks True \<and>
              buybacks (playersFile st ! j) < 3 \<and>
              day \<in> set (buybackDays (configFile st)) \<and>
              length pks = getRequiredPicks (playersFile st ! j) day"
    if alive: "status (playersFile (step st r) ! j) = ''alive''"
  proof (cases r)
    case (PostPicks playerId day pks isBuyback)
    show ?thesis
    proof (cases "submitPick (configFile st) (playersFile st) playerId day pks isBuyback")
      case (Inl e)
      with PostPicks alive assms(2) show ?thesis by simp
    next
      case (Inr x)
      obtain players1 p1 where x: "x = (players1, p1)" by (cases x)
      from Inr [unfolded x] show ?thesis
      proof (rule submitPick_Inr)
        fix i
        assume i: "findIndex (\<lambda>p. id_p p = playerId) (playersFile st) = Some i"
          and len: "length pks = getRequiredPicks (playersFile st ! i) day"
          and upd: "players1 = (playersFile st)[i := p1]"
          and b: "isBuyback \<Longrightarrow> buybacks (playersFile st ! i) < 3 \<and>
             day \<in> set (buybackDays (configFile st)) \<and>
             buybacks p1 = buybacks (playersFile st ! i) + 1 \<and> status p1 = ''alive''"
          and nb: "\<not> isBuyback \<Longrightarrow> buybacks p1 = buybacks (playersFile st ! i) \<and>
             status p1 = status (playersFile st ! i)"
        have st': "playersFile (step st r) = (playersFile st)[i := p1]"
          by (simp add: PostPicks Inr x upd)
        from findIndex_Some [OF i] have idi: "id_p (playersFile st ! i) = playerId"
          by simp
        have ji: "j = i"
          using st' alive assms(2) by (cases "j = i") auto
        have "isBuyback"
          using nb st' alive assms ji by (cases isBuyback) auto
        with b len idi ji PostPicks show ?thesis
          by simp
      qed
    qed
  next
    case (PostProcessDay header' d')
    with step_process_nth [OF assms(1), of header' d'] assms(2) alive show ?thesis
      by (auto simp: evalPlayer_not_alive simp del: step.simps)
  qed
  with pd show ?thesis by blast
qed

theorem revival_only_by_buyback_witness:
  "status (playersFile st2 ! 1) = ''eliminated'' \<and>
   status (playersFile (step st2 (PostPicks 2 ''saturday_r2'' [''Arizona''] True)) ! 1) = ''alive'' \<and>
   buybacks (playersFile st2 ! 1) < 3 \<and>
   ''saturday_r2'' \<in> set (buybackDays (configFile st2)) \<and>
   playersFile (step st2 (PostProcessDay (Some ''secret'') ''friday_r1'')) ! 1 = lee2"
proof -
  have j: "1 < length (playersFile st2)"
    and e: "status (playersFile st2 ! 1) = ''eliminated''"
    by (simp_all add: st2_def lee2_def)
  have l: "playersFile st2 = [pat2, lee2]" "configFile st2 = cfg0\<lparr>currentDay := Some ''friday_r1''\<rparr>"
    and v: "status lee2 = ''eliminated''" "buybacks lee2 = 0"
    by (simp_all add: st2_def lee2_def lee1_def lee_def)
  show ?thesis
    using revival_only_by_buyback [OF j e, of "PostPicks 2 ''saturday_r2'' [''Arizona''] True"
        "Some ''secret''" "''friday_r1''"]
    by (auto simp: step_revive l v cfg0_def simp del: step.simps)
qed

text \<open>
  C9, as stated, fails: the summary reads the stored result of the day, also for a player
  the loop skipped. Lee entered picks for Friday, was eliminated on Thursday and is skipped
  when Friday is processed; the summary reports Lee's Friday result as \<open>pending\<close>, not as
  none.
\<close>

theorem skipped_player_pending:
  "run st0 thursday = st2 \<and>
   status (playersFile st2 ! 1) = ''eliminated'' \<and>
   processDay (Some ''secret'') (configFile st2) (playersFile st2) (gamesFile st2) ''friday_r1'' =
     Inr (cfg0\<lparr>currentDay := Some ''saturday_r2''\<rparr>,
          [pat2\<lparr>status := ''eliminated'', needsBuyback := True,
                 results := [(''thursday_r1'', ''win''), (''friday_r1'', ''loss'')]\<rparr>,
           lee2],
          Some ''saturday_r2'',
          [\<lparr>id_e = 1, name_e = ''Pat'', status_e = ''eliminated'', result = Some ''loss''\<rparr>,
           \<lparr>id_e = 2, name_e = ''Lee'', status_e = ''eliminated'', result = Some ''pending''\<rparr>])"
  by (simp add: run_thursday)
    (simp add: st2_def pat2_def lee2_def pat1_def lee1_def pat_def lee_def cfg0_def games0_def
      processDay_def evalPlayer_def isAdminAuthed_def indexOf_def DAY_ORDER_def Let_def
      summarize_def orNull_def)

text \<open>
  C9, amended. The summary of \<open>processDay\<close> has one entry per player of the players list,
  in order, with the player's id, name and status after processing; the entry's result is
  the result stored for the day after processing, none when no result (or an empty one) is
  stored. For an evaluated player that is \<open>win\<close> or \<open>loss\<close>; a skipped player (not alive,
  or without picks for the day) is unchanged and the entry shows whatever result was stored
  before. The request is one the handler processes: the admin password matches, a day is
  given, and the day names no member of \<^verbatim>\<open>Object.prototype\<close>.
\<close>

theorem summary_entries:
  assumes "isAdminAuthed config header" and "day \<noteq> []"
    and "day \<notin> set OBJECT_PROTOTYPE"
  shows "\<exists>config1 players1 cur summary.
     processDay header config players allGames day = Inr (config1, players1, cur, summary) \<and>
     length players1 = length players \<and> length summary = length players \<and>
     (\<forall>i < length players.
        id_e (summary ! i) = id_p (players ! i) \<and>
        name_e (summary ! i) = name (players ! i) \<and>
        status_e (summary ! i) = status (players1 ! i) \<and>
        result (summary ! i) =
          (case map_of (results (players1 ! i)) day of
             None \<Rightarrow> None
           | Some r \<Rightarrow> if r = [] then None else Some r) \<and>
        (if status (players ! i) = ''alive'' \<and>
            (\<exists>pk. map_of (picks (players ! i)) day = Some pk \<and> pk \<noteq> [])
         then result (summary ! i) = Some ''win'' \<or> result (summary ! i) = Some ''loss''
         else players1 ! i = players ! i \<and>
              result (summary ! i) =
                (case map_of (results (players ! i)) day of
                   None \<Rightarrow> None
                 | Some r \<Rightarrow> if r = [] then None else Some r)))"
proof -
  from processDay_ok [OF assms(1,2), of players allGames]
  obtain config1 players1 cur summary where
    pd: "processDay header config players allGames day = Inr (config1, players1, cur, summary)"
    by blast
  note S = processDay_summary_nth [OF pd]
  let ?P = "\<lambda>i. id_e (summary ! i) = id_p (players ! i) \<and>
        name_e (summary ! i) = name (players ! i) \<and>
        status_e (summary ! i) = status (players1 ! i) \<and>
        result (summary ! i) = orNull (map_of (results (players1 ! i)) day) \<and>
        (if status (players ! i) = ''alive'' \<and>
            (\<exists>pk. map_of (picks (players ! i)) day = Some pk \<and> pk \<noteq> [])
         then result (summary ! i) = Some ''win'' \<or> result (summary ! i) = Some ''loss''
         else players1 ! i = players ! i \<and>
              result (summary ! i) = orNull (map_of (results (players ! i)) day))"
  have main: "?P i" if i: "i < length players" for i
  proof -
    from S(2) [OF i] obtain ws where
      ev: "players1 ! i = evalPlayer config ws day (players ! i)" by blast
    have ids: "id_p (players1 ! i) = id_p (players ! i)" "name (players1 ! i) = name (players ! i)"
      unfolding ev by (simp_all add: evalPlayer_def Let_def split: option.splits)
    have sm: "id_e (summary ! i) = id_p (players ! i)"
      "name_e (summary ! i) = name (players ! i)"
      "status_e (summary ! i) = status (players1 ! i)"
      "result (summary ! i) = orNull (map_of (results (players1 ! i)) day)"
      using ids by (simp_all add: S(1) [OF i] summarize_def)
    show ?thesis
    proof (cases "status (players ! i) = ''alive'' \<and>
            (\<exists>pk. map_of (picks (players ! i)) day = Some pk \<and> pk \<noteq> [])")
      case True
      then obtain pk where "status (players ! i) = ''alive''"
        "map_of (picks (players ! i)) day = Some pk" "pk \<noteq> []" by blast
      from evalPlayer_result [OF this, of config ws]
      have "result (summary ! i) = Some ''win'' \<or> result (summary ! i) = Some ''loss''"
        unfolding sm(4) ev by (auto simp: orNull_def)
      with True sm show ?thesis
        by (simp only: if_True simp_thms)
    next
      case False
      from evalPlayer_skipped [OF False, of config ws]
      have same: "players1 ! i = players ! i"
        by (simp add: ev)
      then have "result (summary ! i) = orNull (map_of (results (players ! i)) day)"
        using sm(4) by simp
      with False same sm show ?thesis
        by (simp only: if_False simp_thms)
    qed
  qed
  then have "\<forall>i < length players. ?P i"
    by blast
  with pd processDay_lengths [OF pd] show ?thesis
    unfolding orNull_def [symmetric]
    by (intro exI [of _ config1] exI [of _ players1] exI [of _ cur] exI [of _ summary] conjI)
qed

theorem summary_entries_witness:
  "\<exists>config1 players1 cur summary.
     processDay (Some ''secret'') (configFile st2) (playersFile st2) (gamesFile st2) ''friday_r1'' =
       Inr (config1, players1, cur, summary) \<and>
     length summary = 2 \<and>
     id_e (summary ! 0) = 1 \<and> name_e (summary ! 0) = ''Pat'' \<and>
     status_e (summary ! 0) = ''eliminated'' \<and> result (summary ! 0) = Some ''loss'' \<and>
     id_e (summary ! 1) = 2 \<and> name_e (summary ! 1) = ''Lee'' \<and>
     status_e (summary ! 1) = ''eliminated'' \<and> result (summary ! 1) = Some ''pending''"
proof -
  have a: "isAdminAuthed (configFile st2) (Some ''secret'')"
    by (simp add: isAdminAuthed_def st2_def cfg0_def)
  have d: "''friday_r1'' \<noteq> []" and nd: "''friday_r1'' \<notin> set OBJECT_PROTOTYPE"
    by (simp_all add: OBJECT_PROTOTYPE_def)
  from summary_entries [OF a d nd, of "playersFile st2" "gamesFile st2"]
  obtain config1 players1 cur summary where
    pd: "processDay (Some ''secret'') (configFile st2) (playersFile st2) (gamesFile st2) ''friday_r1'' =
       Inr (config1, players1, cur, summary)"
    by blast
  have v: "summary =
      [\<lparr>id_e = 1, name_e = ''Pat'', status_e = ''eliminated'', result = Some ''loss''\<rparr>,
       \<lparr>id_e = 2, name_e = ''Lee'', status_e = ''eliminated'', result = Some ''pending''\<rparr>]"
    using pd
    by (simp add: st2_def pat2_def lee2_def pat1_def lee1_def pat_def lee_def cfg0_def games0_def
      processDay_def evalPlayer_def isAdminAuthed_def indexOf_def DAY_ORDER_def Let_def
      summarize_def orNull_def)
  show ?thesis
    using pd by (intro exI [of _ config1] exI [of _ players1] exI [of _ cur] exI [of _ summary])
      (simp add: v)
qed

text \<open>
  C10. Pick submission does not look at the player's status: for a player whose status is
  \<open>eliminated\<close>, a submission not marked as a buyback that passes every validation check
  is accepted, records the pick list under the day with the result \<open>pending\<close>, and leaves
  the status \<open>eliminated\<close>, the buyback count, the amount spent and the needs-buyback flag
  as they were. Passing the first check includes that the day names no member of
  \<^verbatim>\<open>Object.prototype\<close>.
\<close>

theorem eliminated_may_submit:
  assumes "\<not> siteLocked config" and "playerId \<noteq> 0" and "day \<noteq> []" and "pks \<noteq> []"
    and "findIndex (\<lambda>p. id_p p = playerId) players = Some i"
    and "p = players ! i"
    and "status p = ''eliminated''"
    and "map_of (picks p) day = None"
    and "distinct pks"
    and "\<not> (\<exists>t \<in> set pks. \<exists>ds \<in> set (picks p). t \<in> set (snd ds))"
    and "set pks \<subseteq> set (teams config)"
    and "length pks = getRequiredPicks p day"
    and "day \<notin> set OBJECT_PROTOTYPE"
  shows
    "\<exists>p1. submitPick config players playerId day pks False = Inr (players[i := p1], p1) \<and>
       p1 = p\<lparr>picks := AList.update day pks (picks p),
              results := AList.update day ''pending'' (results p)\<rparr> \<and>
       map_of (picks p1) day = Some pks \<and>
       map_of (results p1) day = Some ''pending'' \<and>
       status p1 = ''eliminated'' \<and>
       buybacks p1 = buybacks p \<and>
       totalSpent p1 = totalSpent p \<and>
       needsBuyback p1 = needsBuyback p"
  using submitPick_checked [OF assms(1-5), of False, folded assms(6)] assms(7-13)
  by (simp add: savePicks_def Let_def update_conv')

theorem eliminated_may_submit_witness:
  "\<exists>p1. submitPick cfg0 [pat1, lee1\<lparr>status := ''eliminated''\<rparr>] 2 ''saturday_r2'' [''Arizona''] False =
       Inr ([pat1, p1], p1) \<and>
     map_of (picks p1) ''saturday_r2'' = Some [''Arizona''] \<and>
     map_of (results p1) ''saturday_r2'' = Some ''pending'' \<and>
     status p1 = ''eliminated'' \<and> buybacks p1 = 0 \<and> totalSpent p1 = 25 \<and> \<not> needsBuyback p1"
proof -
  have l: "\<not> siteLocked cfg0"
    by (simp add: cfg0_def)
  have f: "findIndex (\<lambda>p. id_p p = 2) [pat1, lee1\<lparr>status := ''eliminated''\<rparr>] = Some 1"
    by (simp add: pat1_def pat_def lee1_def lee_def)
  show ?thesis
    using eliminated_may_submit [OF l _ _ _ f refl, of "''saturday_r2''" "[''Arizona'']"]
    by (auto simp: lee1_def lee_def cfg0_def getRequiredPicks_def OBJECT_PROTOTYPE_def)
qed

end
